theory Spec2Isabelle
  imports Complex_Main
begin

section \<open>Matrices and the library primitives the sources call\<close>

text \<open>
  The sources (\<^verbatim>\<open>helper.hpp\<close> and the subspace header with \<^verbatim>\<open>subspace::project\<close>,
  \<^verbatim>\<open>subspace::reconstruct\<close> and class \<^verbatim>\<open>LDA\<close>) work on OpenCV matrices. A matrix is
  a record of its header fields and its cells, row by row. Cells of the numeric matrices
  are idealised as reals: rounding of \<^verbatim>\<open>double\<close> and NaN are outside this development,
  and so is the element depth, which only \<^verbatim>\<open>convertTo\<close> changes. The field
  \<open>channels\<close> is carried because \<^verbatim>\<open>LDA::compute\<close> tests it; the arithmetic primitives
  are modelled for single-channel matrices.

  Errors are values: \<^verbatim>\<open>CV_Error(CV_StsBadArg, ...)\<close> of the sources is \<open>StsBadArg\<close>
  (the \<^verbatim>\<open>InvalidArgument\<close> of the specification), a failed \<^verbatim>\<open>CV_Assert\<close> inside the
  library is \<open>StsAssert\<close>.
\<close>

datatype error = StsBadArg | StsAssert | StsOutOfRange

record 'a Mat =
  rows :: nat
  cols :: nat
  channels :: nat
  elems :: "'a list list"

definition cell :: "'a Mat \<Rightarrow> nat \<Rightarrow> nat \<Rightarrow> 'a" where
  "cell m i j = elems m ! i ! j"

text \<open>A freshly created \<open>r \<times> c\<close> single-channel matrix whose cell \<open>(i, j)\<close> is \<open>f i j\<close>.\<close>

definition Mat_of :: "nat \<Rightarrow> nat \<Rightarrow> (nat \<Rightarrow> nat \<Rightarrow> 'a) \<Rightarrow> 'a Mat" where
  "Mat_of r c f =
     \<lparr>rows = r, cols = c, channels = 1, elems = map (\<lambda>i. map (f i) [0..<c]) [0..<r]\<rparr>"

text \<open>\<^verbatim>\<open>Mat()\<close>: the empty matrix.\<close>

definition Mat_empty :: "'a Mat" where
  "Mat_empty = \<lparr>rows = 0, cols = 0, channels = 1, elems = []\<rparr>"

text \<open>\<^verbatim>\<open>Mat::total()\<close>: the number of cells.\<close>

definition total_cv :: "'a Mat \<Rightarrow> nat" where
  "total_cv m = rows m * cols m"

text \<open>
  \<^verbatim>\<open>Mat::convertTo(dst, rtype)\<close> writes a new matrix of the same size, cell by cell;
  with the depth abstracted the cells keep their values.
\<close>

definition convertTo_cv :: "'a Mat \<Rightarrow> 'a Mat" where
  "convertTo_cv m = Mat_of (rows m) (cols m) (cell m)"

text \<open>\<^verbatim>\<open>m.convertTo(m, m.type(), alpha)\<close>: every cell scaled by \<open>alpha\<close>.\<close>

definition convertTo_scaled :: "real Mat \<Rightarrow> real \<Rightarrow> real Mat" where
  "convertTo_scaled m alpha = Mat_of (rows m) (cols m) (\<lambda>i j. cell m i j * alpha)"

text \<open>\<^verbatim>\<open>Mat::zeros(r, c, type)\<close> and \<^verbatim>\<open>m.row(i)\<close>.\<close>

definition Mat_zeros :: "nat \<Rightarrow> nat \<Rightarrow> real Mat" where
  "Mat_zeros r c = Mat_of r c (\<lambda>i j. 0)"

definition Mat_row :: "'a Mat \<Rightarrow> nat \<Rightarrow> 'a Mat" where
  "Mat_row m i = Mat_of 1 (cols m) (\<lambda>k j. cell m i j)"

text \<open>Writing through the view \<^verbatim>\<open>m.row(i)\<close>: row \<open>i\<close> of \<open>m\<close> becomes the row of \<open>v\<close>.\<close>

definition set_row :: "'a Mat \<Rightarrow> nat \<Rightarrow> 'a Mat \<Rightarrow> 'a Mat" where
  "set_row m i v = m\<lparr>elems := (elems m)[i := map (cell v 0) [0..<cols m]]\<rparr>"

text \<open>\<^verbatim>\<open>cv::transpose\<close>, behind the wrapper \<^verbatim>\<open>transpose(const Mat&)\<close> of helper.hpp.\<close>

definition transpose_cv :: "'a Mat \<Rightarrow> 'a Mat" where
  "transpose_cv src = Mat_of (cols src) (rows src) (\<lambda>i j. cell src j i)"

text \<open>
  \<^verbatim>\<open>m.reshape(1, 1)\<close>: one channel, one row. OpenCV keeps the header when the row count
  is already 1 and otherwise refuses a matrix with fewer than one scalar
  (\<^verbatim>\<open>"Bad new number of rows"\<close>).
\<close>

definition reshape_1_1 :: "'a Mat \<Rightarrow> error + 'a Mat" where
  "reshape_1_1 m =
     (let total_width = cols m * channels m in
      if rows m = 1 then Inr (m\<lparr>cols := total_width, channels := 1\<rparr>)
      else if total_width * rows m < 1 then Inl StsOutOfRange
      else Inr \<lparr>rows = 1, cols = total_width * rows m, channels = 1,
                elems = [concat (elems m)]\<rparr>)"

text \<open>\<^verbatim>\<open>cv::repeat(src, ny, nx)\<close>: \<open>src\<close> tiled \<open>ny\<close> times down and \<open>nx\<close> times across.\<close>

definition repeat_cv :: "'a Mat \<Rightarrow> nat \<Rightarrow> nat \<Rightarrow> error + 'a Mat" where
  "repeat_cv src ny nx =
     (if ny = 0 \<or> nx = 0 then Inl StsAssert
      else Inr \<lparr>rows = rows src * ny, cols = cols src * nx, channels = channels src,
                elems = concat (replicate ny (map (\<lambda>r. concat (replicate nx r)) (elems src)))\<rparr>)"

text \<open>
  \<^verbatim>\<open>cv::add(a, b, dst)\<close> and \<^verbatim>\<open>cv::subtract(a, b, dst)\<close> on two matrices of one size.
  Every call in the sources passes two matrices of equal size (a row of the data and a
  \<open>1 \<times> D\<close> mean, two \<open>D \<times> D\<close> scatter matrices, the samples and the mean repeated
  to their size), so the size check of the library cannot fail there.
\<close>

definition add_cv :: "real Mat \<Rightarrow> real Mat \<Rightarrow> real Mat" where
  "add_cv a b = Mat_of (rows a) (cols a) (\<lambda>i j. cell a i j + cell b i j)"

definition subtract_cv :: "real Mat \<Rightarrow> real Mat \<Rightarrow> real Mat" where
  "subtract_cv a b = Mat_of (rows a) (cols a) (\<lambda>i j. cell a i j - cell b i j)"

text \<open>
  \<^verbatim>\<open>cv::gemm(A, B, alpha, C, beta, D, flags)\<close> with \<open>flags\<close> either 0 or \<^verbatim>\<open>GEMM_2_T\<close>
  (\<open>t2\<close>): \<open>D = alpha * A * op(B) + beta * C\<close>. The library drops \<open>C\<close> when \<open>beta = 0\<close>,
  asserts that the inner dimensions agree and that a \<open>C\<close> with data has the size of \<open>D\<close>.
\<close>

definition gemm_cv ::
  "real Mat \<Rightarrow> real Mat \<Rightarrow> real \<Rightarrow> real Mat \<Rightarrow> real \<Rightarrow> bool \<Rightarrow> error + real Mat" where
  "gemm_cv A B alpha C beta t2 =
     (let C' = (if beta \<noteq> 0 then C else Mat_empty);
          len = (if t2 then cols B else rows B);
          width = (if t2 then rows B else cols B);
          b = (\<lambda>k j. if t2 then cell B j k else cell B k j)
      in if cols A \<noteq> len then Inl StsAssert
         else if total_cv C' \<noteq> 0 \<and> (rows C' \<noteq> rows A \<or> cols C' \<noteq> width) then Inl StsAssert
         else Inr (Mat_of (rows A) width
                (\<lambda>i j. alpha * (\<Sum>k\<leftarrow>[0..<len]. cell A i k * b k j)
                       + (if total_cv C' \<noteq> 0 then beta * cell C' i j else 0))))"

text \<open>\<^verbatim>\<open>cv::mulTransposed(src, dst, true)\<close>: \<open>dst = src\<^sup>T * src\<close>.\<close>

definition mulTransposed_cv :: "real Mat \<Rightarrow> real Mat" where
  "mulTransposed_cv src =
     Mat_of (cols src) (cols src) (\<lambda>i j. \<Sum>k\<leftarrow>[0..<rows src]. cell src k i * cell src k j)"

text \<open>
  \<^verbatim>\<open>Mat(m, Range::all(), Range(s, e))\<close>: the columns \<open>s\<close> to \<open>e - 1\<close>; the constructor
  asserts \<open>0 \<le> s \<le> e \<le> m.cols\<close>, and a result without rows or without columns is
  released: it is the \<open>0 \<times> 0\<close> matrix. \<^verbatim>\<open>m.col(x)\<close> is the range \<open>(x, x + 1)\<close>.
\<close>

definition Mat_colRange :: "'a Mat \<Rightarrow> int \<Rightarrow> int \<Rightarrow> error + 'a Mat" where
  "Mat_colRange m s e =
     (if 0 \<le> s \<and> s \<le> e \<and> e \<le> int (cols m)
      then Inr (if rows m = 0 \<or> e - s = 0
                then m\<lparr>rows := 0, cols := 0, elems := []\<rparr>
                else m\<lparr>cols := nat (e - s),
                       elems := map (\<lambda>r. take (nat (e - s)) (drop (nat s) r)) (elems m)\<rparr>)
      else Inl StsAssert)"

text \<open>
  \<^verbatim>\<open>cv::sortIdx\<close> with \<^verbatim>\<open>CV_SORT_EVERY_ROW\<close>: for each row the indices that sort it.
  The library sorts the indices ascending by their value and reverses the result for
  \<^verbatim>\<open>CV_SORT_DESCENDING\<close>. The order it gives to equal values is not specified; here
  equal values keep their index order in the ascending sort.
\<close>

definition sortIdx_row :: "'a::linorder list \<Rightarrow> bool \<Rightarrow> int list" where
  "sortIdx_row xs ascending =
     (let idx = map int (sort_key (\<lambda>i. xs ! i) [0..<length xs])
      in if ascending then idx else rev idx)"

definition sortIdx_cv :: "'a::linorder Mat \<Rightarrow> bool \<Rightarrow> int Mat" where
  "sortIdx_cv src ascending =
     \<lparr>rows = rows src, cols = cols src, channels = 1,
      elems = map (\<lambda>r. sortIdx_row r ascending) (elems src)\<rparr>"

text \<open>The conversion of a one-row or one-column \<^verbatim>\<open>Mat\<close> to a \<^verbatim>\<open>vector\<close>.\<close>

definition Mat_to_vector :: "'a Mat \<Rightarrow> 'a list" where
  "Mat_to_vector m = concat (elems m)"

section \<open>helper.hpp\<close>

text \<open>
  \<^verbatim>\<open>remove_dups\<close>: every element is inserted into a \<^verbatim>\<open>std::set\<close>, which is then read
  in its order. The set is held as the list of its elements in that order.
\<close>

definition set_insert :: "'a::linorder \<Rightarrow> 'a list \<Rightarrow> 'a list" where
  "set_insert x s = (if x \<in> set s then s else insort x s)"

definition remove_dups :: "'a::linorder list \<Rightarrow> 'a list" where
  "remove_dups src =
     (let set_elems = foldl (\<lambda>s x. set_insert x s) [] src
      in foldl (\<lambda>elems x. elems @ [x]) [] set_elems)"

text \<open>\<^verbatim>\<open>cv::argsort\<close>.\<close>

definition argsort :: "'a::linorder Mat \<Rightarrow> bool \<Rightarrow> error + int Mat" where
  "argsort src ascending =
     (if rows src \<noteq> 1 \<and> cols src \<noteq> 1 then Inl StsBadArg
      else case reshape_1_1 src of
             Inl e \<Rightarrow> Inl e
           | Inr r \<Rightarrow> Inr (sortIdx_cv r ascending))"

text \<open>
  \<^verbatim>\<open>cv::sortMatrixByColumn\<close>. \<^verbatim>\<open>dst.create\<close> allocates the destination without
  initialising it: its cells are whatever the memory held, here a parameter \<open>uninit\<close>.
  The loop copies column \<open>indices[idx]\<close> of the source to column \<open>idx\<close> of the
  destination; \<^verbatim>\<open>src.col\<close> and \<^verbatim>\<open>dst.col\<close> assert that the column exists.
\<close>

definition set_col :: "'a Mat \<Rightarrow> nat \<Rightarrow> (nat \<Rightarrow> 'a) \<Rightarrow> 'a Mat" where
  "set_col dst idx c =
     dst\<lparr>elems := map (\<lambda>i. (elems dst ! i)[idx := c i]) [0..<rows dst]\<rparr>"

fun copy_columns :: "'a Mat \<Rightarrow> int list \<Rightarrow> nat \<Rightarrow> 'a Mat \<Rightarrow> error + 'a Mat" where
  "copy_columns src [] idx dst = Inr dst"
| "copy_columns src (x # xs) idx dst =
     (if x < 0 \<or> int (cols src) < x + 1 then Inl StsAssert
      else if cols dst < idx + 1 then Inl StsAssert
      else copy_columns src xs (idx + 1) (set_col dst idx (\<lambda>i. cell src i (nat x))))"

definition sortMatrixByColumn ::
  "(nat \<Rightarrow> nat \<Rightarrow> 'a) \<Rightarrow> 'a Mat \<Rightarrow> int list \<Rightarrow> error + 'a Mat" where
  "sortMatrixByColumn uninit src indices =
     (let dst = (Mat_of (rows src) (cols src) uninit)\<lparr>channels := channels src\<rparr>
      in copy_columns src indices 0 dst)"

section \<open>The linear subspace transform\<close>

text \<open>\<^verbatim>\<open>subspace::project\<close>.\<close>

definition project :: "real Mat \<Rightarrow> real Mat \<Rightarrow> real Mat \<Rightarrow> error + real Mat" where
  "project W mean src =
     (let X = convertTo_cv src;
          n = rows X;
          d = cols X
      in if total_cv mean = d
         then (case reshape_1_1 mean of
                 Inl e \<Rightarrow> Inl e
               | Inr m1 \<Rightarrow>
                   (case repeat_cv m1 n 1 of
                      Inl e \<Rightarrow> Inl e
                    | Inr rm \<Rightarrow> gemm_cv (subtract_cv X rm) W 1 Mat_empty 0 False))
         else gemm_cv X W 1 Mat_empty 0 False)"

text \<open>
  \<^verbatim>\<open>subspace::reconstruct\<close>. The two conditional arguments of the \<^verbatim>\<open>gemm\<close> call are
  evaluated before the call, so a mean that cannot be reshaped or repeated raises there.
\<close>

definition reconstruct :: "real Mat \<Rightarrow> real Mat \<Rightarrow> real Mat \<Rightarrow> error + real Mat" where
  "reconstruct W mean src =
     (let n = rows src;
          d = cols src;
          Y = convertTo_cv src
      in if d = total_cv mean
         then (case reshape_1_1 mean of
                 Inl e \<Rightarrow> Inl e
               | Inr m1 \<Rightarrow>
                   (case repeat_cv m1 n 1 of
                      Inl e \<Rightarrow> Inl e
                    | Inr rm \<Rightarrow> gemm_cv Y W 1 rm 1 True))
         else gemm_cv Y W 1 Mat_empty 0 True)"

section \<open>The discriminant engine\<close>

record LDA =
  dataAsRow :: bool
  num_components :: int
  eigenvectors :: "real Mat"
  eigenvalues :: "real Mat"

text \<open>The constructor \<^verbatim>\<open>LDA(int num_components = 0, bool dataAsRow = true)\<close>.\<close>

definition LDA_new :: "int \<Rightarrow> bool \<Rightarrow> LDA" where
  "LDA_new n asRow =
     \<lparr>dataAsRow = asRow, num_components = n, eigenvectors = Mat_empty, eigenvalues = Mat_empty\<rparr>"

text \<open>
  The numerical kernels \<^verbatim>\<open>LDA::compute\<close> calls are parameters: the cells of the inverse
  \<^verbatim>\<open>Mat::inv\<close> returns, the eigenvalues and eigenvectors of the solver, and the content
  of freshly allocated memory. No result below depends on their values.
\<close>

record numerics =
  inv_cell :: "real Mat \<Rightarrow> nat \<Rightarrow> nat \<Rightarrow> real"
  eig_value :: "real Mat \<Rightarrow> nat \<Rightarrow> real"
  eig_vector :: "real Mat \<Rightarrow> nat \<Rightarrow> nat \<Rightarrow> real"
  uninit :: "nat \<Rightarrow> nat \<Rightarrow> real"

text \<open>\<^verbatim>\<open>Sw.inv()\<close>: a matrix of the size of its argument.\<close>

definition Mat_inv :: "numerics \<Rightarrow> real Mat \<Rightarrow> real Mat" where
  "Mat_inv env m = Mat_of (rows m) (cols m) (inv_cell env m)"

text \<open>
  Modelled from the spec: class \<^verbatim>\<open>EigenvalueDecomposition\<close> of decomposition.hpp, which
  is not among the sources. The specification gives it as a primitive that takes a
  square matrix and returns its eigenvalues and the corresponding eigenvectors, not
  sorted: for an \<open>n \<times> n\<close> matrix, \<open>n\<close> eigenvalues (here one row) and an \<open>n \<times> n\<close>
  matrix whose column \<open>j\<close> belongs to eigenvalue \<open>j\<close>.
\<close>

definition es_eigenvalues :: "numerics \<Rightarrow> real Mat \<Rightarrow> real Mat" where
  "es_eigenvalues env M = Mat_of 1 (rows M) (\<lambda>i j. eig_value env M j)"

definition es_eigenvectors :: "numerics \<Rightarrow> real Mat \<Rightarrow> real Mat" where
  "es_eigenvectors env M = Mat_of (rows M) (rows M) (eig_vector env M)"

text \<open>
  Lines 124 to 130 of \<^verbatim>\<open>LDA::compute\<close>: \<^verbatim>\<open>label2num\<close> is a \<^verbatim>\<open>std::map\<close>, filled in
  index order; reading it with \<^verbatim>\<open>operator[]\<close> gives 0 for a key it does not hold.
\<close>

definition label2num_of :: "int list \<Rightarrow> (int \<rightharpoonup> nat)" where
  "label2num_of num2label =
     foldl (\<lambda>m i. m(num2label ! i \<mapsto> i)) Map.empty [0..<length num2label]"

definition map_at :: "(int \<rightharpoonup> nat) \<Rightarrow> int \<Rightarrow> nat" where
  "map_at m k = (case m k of None \<Rightarrow> 0 | Some v \<Rightarrow> v)"

definition map_labels :: "int list \<Rightarrow> nat list" where
  "map_labels labels =
     (let num2label = remove_dups labels;
          label2num = label2num_of num2label
      in map (\<lambda>l. map_at label2num l) labels)"

text \<open>
  Lines 146 to 162: the sums. The loop state is \<^verbatim>\<open>meanTotal\<close>, the array
  \<^verbatim>\<open>meanClass\<close> and the array \<^verbatim>\<open>numClass\<close>.
\<close>

definition calc_sums_step ::
  "real Mat \<Rightarrow> nat list \<Rightarrow> real Mat \<times> real Mat list \<times> nat list \<Rightarrow> nat \<Rightarrow>
   real Mat \<times> real Mat list \<times> nat list" where
  "calc_sums_step data mapped_labels s i =
     (case s of (meanTotal, meanClass, numClass) \<Rightarrow>
        let instance = Mat_row data i;
            classIdx = mapped_labels ! i
        in (add_cv meanTotal instance,
            meanClass[classIdx := add_cv (meanClass ! classIdx) instance],
            numClass[classIdx := numClass ! classIdx + 1]))"

definition calc_sums ::
  "real Mat \<Rightarrow> nat list \<Rightarrow> nat \<Rightarrow> nat \<Rightarrow> nat \<Rightarrow> real Mat \<times> real Mat list \<times> nat list" where
  "calc_sums data mapped_labels N D C =
     foldl (calc_sums_step data mapped_labels)
       (Mat_zeros 1 D, replicate C (Mat_zeros 1 D), replicate C 0) [0..<N]"

text \<open>Lines 164 to 166: the means \<^verbatim>\<open>(meanTotal, meanClass)\<close>.\<close>

definition calc_means ::
  "real Mat \<Rightarrow> nat list \<Rightarrow> nat \<Rightarrow> nat \<Rightarrow> nat \<Rightarrow> real Mat \<times> real Mat list" where
  "calc_means data mapped_labels N D C =
     (case calc_sums data mapped_labels N D C of (meanTotal, meanClass, numClass) \<Rightarrow>
        (convertTo_scaled meanTotal (1 / real N),
         map (\<lambda>i. convertTo_scaled (meanClass ! i) (1 / real (numClass ! i))) [0..<C]))"

text \<open>Lines 168 to 172: every row of the data loses the mean of its class.\<close>

definition subtract_class_means :: "real Mat \<Rightarrow> nat list \<Rightarrow> real Mat list \<Rightarrow> nat \<Rightarrow> real Mat" where
  "subtract_class_means data mapped_labels meanClass N =
     foldl (\<lambda>data i.
              let classIdx = mapped_labels ! i;
                  instance = Mat_row data i
              in set_row data i (subtract_cv instance (meanClass ! classIdx)))
       data [0..<N]"

text \<open>Lines 177 to 183: the between-classes scatter \<^verbatim>\<open>Sb\<close>.\<close>

definition between_scatter :: "real Mat list \<Rightarrow> real Mat \<Rightarrow> nat \<Rightarrow> nat \<Rightarrow> real Mat" where
  "between_scatter meanClass meanTotal D C =
     foldl (\<lambda>Sb i.
              let tmp = subtract_cv (meanClass ! i) meanTotal;
                  tmp' = mulTransposed_cv tmp
              in add_cv Sb tmp')
       (Mat_zeros D D) [0..<C]"

text \<open>
  Lines 189 to 201: the eigenpairs, ranked and truncated. Every assignment to a field is
  a state of its own, since a later statement may raise.
\<close>

definition rank_eigenpairs :: "numerics \<Rightarrow> LDA \<Rightarrow> real Mat \<Rightarrow> error option \<times> LDA" where
  "rank_eigenpairs env st M =
     (let st1 = st\<lparr>eigenvalues := es_eigenvalues env M\<rparr>;
          st2 = st1\<lparr>eigenvectors := es_eigenvectors env M\<rparr>
      in case reshape_1_1 (eigenvalues st2) of
           Inl e \<Rightarrow> (Some e, st2)
         | Inr ev \<Rightarrow>
      let st3 = st2\<lparr>eigenvalues := ev\<rparr>
      in case argsort (eigenvalues st3) False of
           Inl e \<Rightarrow> (Some e, st3)
         | Inr si \<Rightarrow>
      let sorted_indices = Mat_to_vector si
      in case sortMatrixByColumn (uninit env) (eigenvalues st3) sorted_indices of
           Inl e \<Rightarrow> (Some e, st3)
         | Inr ev' \<Rightarrow>
      let st4 = st3\<lparr>eigenvalues := ev'\<rparr>
      in case sortMatrixByColumn (uninit env) (eigenvectors st4) sorted_indices of
           Inl e \<Rightarrow> (Some e, st4)
         | Inr evec' \<Rightarrow>
      let st5 = st4\<lparr>eigenvectors := evec'\<rparr>
      in case Mat_colRange (eigenvalues st5) 0 (num_components st5) of
           Inl e \<Rightarrow> (Some e, st5)
         | Inr ev'' \<Rightarrow>
      let st6 = st5\<lparr>eigenvalues := ev''\<rparr>
      in case Mat_colRange (eigenvectors st6) 0 (num_components st6) of
           Inl e \<Rightarrow> (Some e, st6)
         | Inr evec'' \<Rightarrow> (None, st6\<lparr>eigenvectors := evec''\<rparr>))"

text \<open>
  \<^verbatim>\<open>LDA::compute(const Mat& src, const vector<int>& labels)\<close>. The result is the error
  raised, if any, and the instance as the call leaves it. \<^verbatim>\<open>src.clone()\<close> copies the
  source, which the model never changes; the warning printed when \<open>N < D\<close> changes
  nothing and is left out.
\<close>

definition compute :: "numerics \<Rightarrow> LDA \<Rightarrow> real Mat \<Rightarrow> int list \<Rightarrow> error option \<times> LDA" where
  "compute env st src labels =
     (if channels src \<noteq> 1 then (Some StsBadArg, st)
      else
        let data = convertTo_cv (if dataAsRow st then src else transpose_cv src);
            mapped_labels = map_labels labels;
            N = rows data;
            D = cols data;
            C = length (remove_dups labels)
        in if length labels \<noteq> N then (Some StsBadArg, st)
           else
             let st' = (if num_components st \<le> 0 \<or> num_components st > int C - 1
                        then st\<lparr>num_components := int C - 1\<rparr> else st);
                 means = calc_means data mapped_labels N D C;
                 meanTotal = fst means;
                 meanClass = snd means;
                 data' = subtract_class_means data mapped_labels meanClass N;
                 Sw = mulTransposed_cv data';
                 Sb = between_scatter meanClass meanTotal D C;
                 Swi = Mat_inv env Sw
             in case gemm_cv Swi Sb 1 Mat_empty 0 False of
                  Inl e \<Rightarrow> (Some e, st')
                | Inr M \<Rightarrow> rank_eigenpairs env st' M)"

text \<open>\<^verbatim>\<open>LDA::project\<close> and \<^verbatim>\<open>LDA::reconstruct\<close>; neither assigns a field.\<close>

definition LDA_project :: "LDA \<Rightarrow> real Mat \<Rightarrow> error + real Mat" where
  "LDA_project st src =
     project (eigenvectors st) Mat_empty (if dataAsRow st then src else transpose_cv src)"

definition LDA_reconstruct :: "LDA \<Rightarrow> real Mat \<Rightarrow> error + real Mat" where
  "LDA_reconstruct st src =
     reconstruct (eigenvectors st) Mat_empty (if dataAsRow st then src else transpose_cv src)"

section \<open>Notions of the specification and sample inputs\<close>

text \<open>The matrix product \<open>A \<cdot> B\<close>, cell by cell.\<close>

definition matrix_product :: "real Mat \<Rightarrow> real Mat \<Rightarrow> real Mat" where
  "matrix_product A B =
     Mat_of (rows A) (cols B) (\<lambda>i j. \<Sum>k\<leftarrow>[0..<cols A]. cell A i k * cell B k j)"

text \<open>
  The between-class scatter as the specification gives it: the sum over the classes of
  the outer product of (class mean - overall mean) with itself, every class counted
  once. The class mean is the sum of the rows of the class divided by their number, the
  overall mean the sum of all rows divided by their number.
\<close>

definition class_members :: "nat list \<Rightarrow> nat \<Rightarrow> nat \<Rightarrow> nat list" where
  "class_members mapped_labels N c = filter (\<lambda>i. mapped_labels ! i = c) [0..<N]"

definition class_mean :: "real Mat \<Rightarrow> nat list \<Rightarrow> nat \<Rightarrow> nat \<Rightarrow> real" where
  "class_mean data mapped_labels c j =
     (\<Sum>i\<leftarrow>class_members mapped_labels (rows data) c. cell data i j)
       / real (length (class_members mapped_labels (rows data) c))"

definition total_mean :: "real Mat \<Rightarrow> nat \<Rightarrow> real" where
  "total_mean data j = (\<Sum>i\<leftarrow>[0..<rows data]. cell data i j) / real (rows data)"

definition Sb_unweighted :: "real Mat \<Rightarrow> nat list \<Rightarrow> nat \<Rightarrow> real Mat" where
  "Sb_unweighted data mapped_labels C =
     Mat_of (cols data) (cols data)
       (\<lambda>a b. \<Sum>c\<leftarrow>[0..<C].
                 (class_mean data mapped_labels c a - total_mean data a)
                 * (class_mean data mapped_labels c b - total_mean data b))"

text \<open>The first \<open>n\<close> columns of a matrix, as \<^verbatim>\<open>Mat(m, Range::all(), Range(0, n))\<close> gives them.\<close>

definition first_columns :: "'a Mat \<Rightarrow> nat \<Rightarrow> 'a Mat" where
  "first_columns m n =
     (if rows m = 0 \<or> n = 0 then m\<lparr>rows := 0, cols := 0, elems := []\<rparr>
      else m\<lparr>cols := n, elems := map (take n) (elems m)\<rparr>)"

text \<open>A matrix whose cell lists agree with its header.\<close>

definition wf_Mat :: "'a Mat \<Rightarrow> bool" where
  "wf_Mat m \<longleftrightarrow> length (elems m) = rows m \<and> (\<forall>r \<in> set (elems m). length r = cols m)"

text \<open>The eigenvalues of the solver in the order \<^verbatim>\<open>argsort(_eigenvalues, false)\<close> gives them.\<close>

definition ranked_values :: "numerics \<Rightarrow> real Mat \<Rightarrow> real list" where
  "ranked_values env M =
     (let vals = map (eig_value env M) [0..<rows M]
      in map (\<lambda>x. vals ! nat x) (sortIdx_row vals False))"

text \<open>
  Sample kernels, exact on diagonal matrices (and so on \<open>1 \<times> 1\<close> matrices), with
  fresh memory holding zeros; and two sample matrices: four samples with one feature,
  and six samples with two features whose scatter matrices are diagonal.
\<close>

definition numerics_diag :: numerics where
  "numerics_diag =
     \<lparr>inv_cell = (\<lambda>m i j. if i = j then 1 / cell m i i else 0),
      eig_value = (\<lambda>m j. cell m j j),
      eig_vector = (\<lambda>m i j. if i = j then 1 else 0),
      uninit = (\<lambda>i j. 0)\<rparr>"

definition samples_1d :: "real Mat" where
  "samples_1d = \<lparr>rows = 4, cols = 1, channels = 1, elems = [[0], [2], [5], [9]]\<rparr>"

definition samples_2d :: "real Mat" where
  "samples_2d = \<lparr>rows = 6, cols = 2, channels = 1,
                 elems = [[-1, -1], [-1, 1], [1, -1], [1, 1], [-1, 3], [1, 3]]\<rparr>"

section \<open>Duplicate removal and label normalisation\<close>

lemma set_insert_set: "set (set_insert x s) = insert x (set s)"
  by (auto simp: set_insert_def set_insort_key)

lemma set_insert_sorted: "sorted s \<Longrightarrow> sorted (set_insert x s)"
  by (simp add: set_insert_def sorted_insort)

lemma set_insert_distinct: "distinct s \<Longrightarrow> distinct (set_insert x s)"
  by (simp add: set_insert_def distinct_insort)

lemma foldl_set_insert:
  "sorted s \<Longrightarrow> distinct s \<Longrightarrow>
   sorted (foldl (\<lambda>s x. set_insert x s) s xs) \<and>
   distinct (foldl (\<lambda>s x. set_insert x s) s xs) \<and>
   set (foldl (\<lambda>s x. set_insert x s) s xs) = set s \<union> set xs"
  by (induction xs arbitrary: s)
     (auto simp: set_insert_set set_insert_sorted set_insert_distinct)

lemma foldl_push_back: "foldl (\<lambda>elems x. elems @ [x]) acc ys = acc @ ys"
  by (induction ys arbitrary: acc) auto

lemma remove_dups_eq: "remove_dups src = foldl (\<lambda>s x. set_insert x s) [] src"
  by (simp add: remove_dups_def foldl_push_back)

lemma remove_dups_props:
  "sorted (remove_dups src) \<and> distinct (remove_dups src) \<and> set (remove_dups src) = set src"
  using foldl_set_insert [of "[]" src] by (simp add: remove_dups_eq)

section \<open>Matrices\<close>

lemma Mat_of_sel [simp]:
  "rows (Mat_of r c f) = r" "cols (Mat_of r c f) = c" "channels (Mat_of r c f) = 1"
  "elems (Mat_of r c f) = map (\<lambda>i. map (f i) [0..<c]) [0..<r]"
  by (simp_all add: Mat_of_def)

lemma cell_Mat_of [simp]: "i < r \<Longrightarrow> j < c \<Longrightarrow> cell (Mat_of r c f) i j = f i j"
  by (simp add: cell_def)

lemma Mat_of_cong: "(\<And>i j. i < r \<Longrightarrow> j < c \<Longrightarrow> f i j = g i j) \<Longrightarrow> Mat_of r c f = Mat_of r c g"
  by (simp add: Mat_of_def)

lemma convertTo_cv_sel [simp]:
  "rows (convertTo_cv m) = rows m" "cols (convertTo_cv m) = cols m"
  by (simp_all add: convertTo_cv_def)

lemma transpose_cv_sel [simp]:
  "rows (transpose_cv m) = cols m" "cols (transpose_cv m) = rows m"
  by (simp_all add: transpose_cv_def)

lemma total_cv_empty [simp]: "total_cv Mat_empty = 0"
  by (simp add: total_cv_def Mat_empty_def)

lemma set_row_sel [simp]:
  "rows (set_row m i v) = rows m" "cols (set_row m i v) = cols m"
  by (simp_all add: set_row_def)

lemma add_cv_sel [simp]: "rows (add_cv a b) = rows a" "cols (add_cv a b) = cols a"
  by (simp_all add: add_cv_def)

lemma wf_Mat_of [simp]: "wf_Mat (Mat_of r c f)"
  by (auto simp: wf_Mat_def)

lemma wf_Mat_one_row:
  assumes "wf_Mat m" and "rows m = 1"
  shows "elems m = [map (cell m 0) [0..<cols m]]"
proof -
  from assms obtain r where r: "elems m = [r]"
    by (cases "elems m") (auto simp: wf_Mat_def)
  with assms have "length r = cols m" by (simp add: wf_Mat_def)
  then have "map (\<lambda>j. r ! j) [0..<cols m] = r" using map_nth [of r] by simp
  moreover have "cell m 0 = (\<lambda>j. r ! j)" by (rule ext) (simp add: cell_def r)
  ultimately show ?thesis using r by simp
qed

section \<open>Label normalisation\<close>

lemma length_remove_dups: "length (remove_dups labels) = card (set labels)"
  using remove_dups_props [of labels] by (metis distinct_card)

lemma label2num_upto:
  assumes "distinct u" and "n \<le> length u" and "c < n"
  shows "foldl (\<lambda>m i. m(u ! i \<mapsto> i)) Map.empty [0..<n] (u ! c) = Some c"
  using assms(2,3)
proof (induction n)
  case 0
  then show ?case by simp
next
  case (Suc n)
  show ?case
  proof (cases "c = n")
    case True
    then show ?thesis by simp
  next
    case False
    with Suc.prems have c: "c < n" "n < length u" by simp_all
    then have "u ! c \<noteq> u ! n" using assms(1) by (simp add: nth_eq_iff_index_eq)
    with Suc.IH c show ?thesis by simp
  qed
qed

lemma map_at_label2num:
  "c < length (remove_dups labels) \<Longrightarrow>
   map_at (label2num_of (remove_dups labels)) (remove_dups labels ! c) = c"
  using label2num_upto [of "remove_dups labels" "length (remove_dups labels)" c]
    remove_dups_props [of labels]
  by (simp add: map_at_def label2num_of_def)

lemma map_labels_range:
  assumes "i < length labels"
  shows "map_labels labels ! i < length (remove_dups labels) \<and>
         remove_dups labels ! (map_labels labels ! i) = labels ! i"
proof -
  have "labels ! i \<in> set (remove_dups labels)"
    using assms remove_dups_props [of labels] by simp
  then obtain c where c: "c < length (remove_dups labels)" "remove_dups labels ! c = labels ! i"
    by (auto simp: in_set_conv_nth)
  then have "map_labels labels ! i = c"
    using assms map_at_label2num [OF c(1)] by (simp add: map_labels_def Let_def)
  with c show ?thesis by simp
qed

lemma map_labels_onto:
  assumes "c < length (remove_dups labels)"
  shows "\<exists>i < length labels. map_labels labels ! i = c"
proof -
  have "remove_dups labels ! c \<in> set labels"
    using assms remove_dups_props [of labels] nth_mem by blast
  then obtain i where i: "i < length labels" "labels ! i = remove_dups labels ! c"
    by (auto simp: in_set_conv_nth)
  then have "map_labels labels ! i = c"
    using map_at_label2num [OF assms] by (simp add: map_labels_def Let_def)
  with i show ?thesis by blast
qed

lemma class_members_nonempty:
  assumes "c < length (remove_dups labels)"
  shows "class_members (map_labels labels) (length labels) c \<noteq> []"
proof -
  from map_labels_onto [OF assms] obtain i where
    "i < length labels" "map_labels labels ! i = c" by blast
  then have "i \<in> set (class_members (map_labels labels) (length labels) c)"
    by (simp add: class_members_def)
  then show ?thesis by auto
qed

section \<open>The plain product behind \<^verbatim>\<open>gemm\<close>\<close>

lemma reshape_empty: "reshape_1_1 (Mat_empty :: real Mat) = Inl StsOutOfRange"
  by (simp add: reshape_1_1_def Mat_empty_def)

lemma gemm_plain:
  "cols A = rows B \<Longrightarrow> gemm_cv A B 1 Mat_empty 0 False = Inr (matrix_product A B)"
  by (simp add: gemm_cv_def matrix_product_def Let_def total_cv_def Mat_empty_def)

lemma gemm_plain_T:
  "cols A = cols B \<Longrightarrow> gemm_cv A B 1 Mat_empty 0 True = Inr (matrix_product A (transpose_cv B))"
  apply (simp add: gemm_cv_def matrix_product_def Let_def total_cv_def Mat_empty_def)
  apply (rule Mat_of_cong)
  apply (rule arg_cong [where f = sum_list])
  apply (simp add: transpose_cv_def)
  done

lemma matrix_product_convertTo:
  "matrix_product (convertTo_cv A) B = matrix_product A B"
  unfolding matrix_product_def convertTo_cv_sel
  by (rule Mat_of_cong) (rule arg_cong [where f = sum_list], simp add: convertTo_cv_def)

lemma project_empty_mean_cases:
  "project W Mat_empty X =
     (if cols X = 0 then Inl StsOutOfRange
      else if cols X = rows W then Inr (matrix_product X W) else Inl StsAssert)"
  by (simp add: project_def Let_def reshape_empty gemm_plain matrix_product_convertTo)
     (simp add: gemm_cv_def Let_def)

lemma reconstruct_empty_mean_cases:
  "reconstruct W Mat_empty Y =
     (if cols Y = 0 then Inl StsOutOfRange
      else if cols Y = cols W then Inr (matrix_product Y (transpose_cv W)) else Inl StsAssert)"
  by (simp add: reconstruct_def Let_def reshape_empty gemm_plain_T matrix_product_convertTo)
     (simp add: gemm_cv_def Let_def)

section \<open>The column copy loop\<close>

lemma set_col_sel [simp]:
  "rows (set_col dst idx c) = rows dst" "cols (set_col dst idx c) = cols dst"
  "channels (set_col dst idx c) = channels dst"
  by (simp_all add: set_col_def)

lemma wf_set_col: "wf_Mat dst \<Longrightarrow> wf_Mat (set_col dst idx c)"
  by (auto simp: wf_Mat_def set_col_def)

lemma cell_set_col:
  "wf_Mat dst \<Longrightarrow> r < rows dst \<Longrightarrow> j < cols dst \<Longrightarrow>
   cell (set_col dst idx c) r j = (if j = idx then c r else cell dst r j)"
  by (auto simp: wf_Mat_def set_col_def cell_def)

lemma copy_columns_result:
  assumes "wf_Mat dst"
      and "\<forall>x \<in> set xs. 0 \<le> x \<and> x < int (cols src)"
      and "idx + length xs \<le> cols dst"
  shows "\<exists>dst'. copy_columns src xs idx dst = Inr dst' \<and>
           rows dst' = rows dst \<and> cols dst' = cols dst \<and> channels dst' = channels dst \<and>
           wf_Mat dst' \<and>
           (\<forall>r < rows dst. \<forall>j < cols dst.
              cell dst' r j =
                (if idx \<le> j \<and> j < idx + length xs then cell src r (nat (xs ! (j - idx)))
                 else cell dst r j))"
  using assms
proof (induction xs arbitrary: idx dst)
  case Nil
  then show ?case by auto
next
  case (Cons x xs)
  let ?d = "set_col dst idx (\<lambda>i. cell src i (nat x))"
  have wf: "wf_Mat ?d" using Cons.prems(1) by (rule wf_set_col)
  have valid: "\<forall>y \<in> set xs. 0 \<le> y \<and> y < int (cols src)" using Cons.prems(2) by simp
  have len: "Suc idx + length xs \<le> cols ?d" using Cons.prems(3) by simp
  from Cons.IH [OF wf valid len] obtain dst' where
    run: "copy_columns src xs (Suc idx) ?d = Inr dst'" and
    shape: "rows dst' = rows dst" "cols dst' = cols dst" "channels dst' = channels dst" and
    wf': "wf_Mat dst'" and
    cells: "\<forall>r < rows dst. \<forall>j < cols dst.
              cell dst' r j =
                (if Suc idx \<le> j \<and> j < Suc idx + length xs
                 then cell src r (nat (xs ! (j - Suc idx))) else cell ?d r j)"
    by auto
  have step: "copy_columns src (x # xs) idx dst = Inr dst'"
    using Cons.prems(2,3) run by simp
  have "cell dst' r j =
          (if idx \<le> j \<and> j < idx + length (x # xs)
           then cell src r (nat ((x # xs) ! (j - idx))) else cell dst r j)"
    if "r < rows dst" "j < cols dst" for r j
  proof (cases "j = idx")
    case True
    then show ?thesis using that cells cell_set_col [OF Cons.prems(1) that] by simp
  next
    case False
    then show ?thesis
      using that cells cell_set_col [OF Cons.prems(1) that]
      by (cases "idx < j") (auto simp: nth_Cons' Suc_diff_Suc)
  qed
  with step shape wf' show ?case by blast
qed

lemma sortMatrixByColumn_result:
  assumes "\<forall>x \<in> set indices. 0 \<le> x \<and> x < int (cols src)"
      and "length indices \<le> cols src"
  shows "\<exists>dst. sortMatrixByColumn junk src indices = Inr dst \<and>
           rows dst = rows src \<and> cols dst = cols src \<and> channels dst = channels src \<and>
           wf_Mat dst \<and>
           (\<forall>r < rows src. \<forall>j < cols src.
              cell dst r j =
                (if j < length indices then cell src r (nat (indices ! j)) else junk r j))"
proof -
  let ?d = "(Mat_of (rows src) (cols src) junk)\<lparr>channels := channels src\<rparr>"
  have wf: "wf_Mat ?d" by (auto simp: wf_Mat_def)
  have len: "0 + length indices \<le> cols ?d" using assms(2) by simp
  have c: "cell ?d r j = junk r j" if "r < rows src" "j < cols src" for r j
    using that by (simp add: cell_def)
  from copy_columns_result [OF wf assms(1) len] c
  show ?thesis by (auto simp: sortMatrixByColumn_def Let_def)
qed

section \<open>Ranking the eigenpairs\<close>

lemma length_sortIdx_row [simp]: "length (sortIdx_row xs asc) = length xs"
  by (simp add: sortIdx_row_def Let_def)

lemma set_sortIdx_row: "set (sortIdx_row xs asc) = int ` {0..<length xs}"
  by (simp add: sortIdx_row_def Let_def)

lemma sortIdx_row_descending:
  "sorted_wrt (\<lambda>a b. b \<le> a) (map (\<lambda>x. xs ! nat x) (sortIdx_row xs False))"
proof -
  let ?L = "sort_key (\<lambda>i. xs ! i) [0..<length xs]"
  have "map (\<lambda>x. xs ! nat x) (sortIdx_row xs False) = rev (map (\<lambda>i. xs ! i) ?L)"
    by (simp add: sortIdx_row_def Let_def rev_map comp_def)
  moreover have "sorted (map (\<lambda>i. xs ! i) ?L)" by (rule sorted_sort_key)
  ultimately show ?thesis by (simp add: sorted_wrt_rev sorted_wrt_map)
qed

lemma sortIdx_row_ascending:
  "sorted (map (\<lambda>x. xs ! nat x) (sortIdx_row xs True))"
proof -
  let ?L = "sort_key (\<lambda>i. xs ! i) [0..<length xs]"
  have "map (\<lambda>x. xs ! nat x) (sortIdx_row xs True) = map (\<lambda>i. xs ! i) ?L"
    by (simp add: sortIdx_row_def Let_def comp_def)
  then show ?thesis by (simp add: sorted_sort_key)
qed

lemma ranked_values_props:
  "length (ranked_values env M) = rows M"
  "sorted_wrt (\<lambda>a b. b \<le> a) (ranked_values env M)"
  by (simp_all add: ranked_values_def Let_def sortIdx_row_descending)

lemma reshape_1_1_row: "reshape_1_1 (Mat_of 1 c f) = Inr (Mat_of 1 c f)"
  by (simp add: reshape_1_1_def Mat_of_def)

lemma argsort_row:
  "argsort (Mat_of 1 c f) asc =
     Inr \<lparr>rows = 1, cols = c, channels = 1, elems = [sortIdx_row (map (f 0) [0..<c]) asc]\<rparr>"
  by (simp add: argsort_def reshape_1_1_def sortIdx_cv_def Mat_of_def)

lemma Mat_colRange_ok:
  "0 \<le> n \<Longrightarrow> n \<le> int (cols m) \<Longrightarrow>
   Mat_colRange m 0 n = Inr (first_columns m (nat n))"
  by (auto simp add: Mat_colRange_def first_columns_def)

lemma Mat_colRange_fail:
  "\<not> (0 \<le> n \<and> n \<le> int (cols m)) \<Longrightarrow> Mat_colRange m 0 n = Inl StsAssert"
  by (auto simp add: Mat_colRange_def)

lemma rank_eigenpairs_cases:
  "\<exists>ev evec.
     rows ev = 1 \<and> cols ev = rows M \<and> elems ev = [ranked_values env M] \<and>
     rows evec = rows M \<and> cols evec = rows M \<and>
     rank_eigenpairs env st M =
       (if 0 \<le> num_components st \<and> num_components st \<le> int (rows M)
        then (None, st\<lparr>eigenvalues := first_columns ev (nat (num_components st)),
                        eigenvectors := first_columns evec (nat (num_components st))\<rparr>)
        else (Some StsAssert, st\<lparr>eigenvalues := ev, eigenvectors := evec\<rparr>))"
proof -
  let ?D = "rows M"
  let ?vals = "map (eig_value env M) [0..<?D]"
  let ?idx = "sortIdx_row ?vals False"
  let ?ev0 = "es_eigenvalues env M"
  let ?evec0 = "es_eigenvectors env M"
  have valid: "\<forall>x \<in> set ?idx. 0 \<le> x \<and> x < int ?D"
    by (auto simp: set_sortIdx_row)
  have len: "length ?idx \<le> ?D" by simp
  have as: "argsort ?ev0 False =
     Inr \<lparr>rows = 1, cols = ?D, channels = 1, elems = [?idx]\<rparr>"
    unfolding es_eigenvalues_def by (rule argsort_row)
  have rs: "reshape_1_1 ?ev0 = Inr ?ev0"
    unfolding es_eigenvalues_def by (rule reshape_1_1_row)
  from sortMatrixByColumn_result [of ?idx ?ev0 "uninit env"] valid len
  obtain ev where ev: "sortMatrixByColumn (uninit env) ?ev0 ?idx = Inr ev"
    and evs: "rows ev = 1" "cols ev = ?D" "wf_Mat ev"
    and evc: "\<forall>j < ?D. cell ev 0 j = cell ?ev0 0 (nat (?idx ! j))"
    by (auto simp: es_eigenvalues_def)
  from sortMatrixByColumn_result [of ?idx ?evec0 "uninit env"] valid len
  obtain evec where evec: "sortMatrixByColumn (uninit env) ?evec0 ?idx = Inr evec"
    and evecs: "rows evec = ?D" "cols evec = ?D"
    by (auto simp: es_eigenvectors_def)
  have "map (cell ev 0) [0..<?D] = map (\<lambda>j. ?vals ! nat (?idx ! j)) [0..<?D]"
  proof (rule map_cong [OF refl])
    fix j assume "j \<in> set [0..<?D]"
    then have j: "j < ?D" by simp
    then have "?idx ! j \<in> set ?idx" by simp
    with valid have "nat (?idx ! j) < ?D" by auto
    with j evc show "cell ev 0 j = ?vals ! nat (?idx ! j)"
      by (simp add: es_eigenvalues_def)
  qed
  also have "\<dots> = map (\<lambda>x. ?vals ! nat x) ?idx"
    by (rule nth_equalityI) simp_all
  finally have "elems ev = [ranked_values env M]"
    using wf_Mat_one_row [OF evs(3) evs(1)] evs(2) by (simp add: ranked_values_def Let_def)
  moreover have "rank_eigenpairs env st M =
       (if 0 \<le> num_components st \<and> num_components st \<le> int (rows M)
        then (None, st\<lparr>eigenvalues := first_columns ev (nat (num_components st)),
                        eigenvectors := first_columns evec (nat (num_components st))\<rparr>)
        else (Some StsAssert, st\<lparr>eigenvalues := ev, eigenvectors := evec\<rparr>))"
  proof (cases "0 \<le> num_components st \<and> num_components st \<le> int (rows M)")
    case True
    then have "Mat_colRange ev 0 (num_components st) = Inr (first_columns ev (nat (num_components st)))"
      and "Mat_colRange evec 0 (num_components st) = Inr (first_columns evec (nat (num_components st)))"
      using evs evecs by (simp_all add: Mat_colRange_ok)
    with True show ?thesis
      by (simp add: rank_eigenpairs_def Let_def rs as Mat_to_vector_def ev evec)
  next
    case False
    then have "Mat_colRange ev 0 (num_components st) = Inl StsAssert"
      using evs by (simp add: Mat_colRange_fail)
    with False show ?thesis
      by (simp add: rank_eigenpairs_def Let_def rs as Mat_to_vector_def ev evec)
  qed
  ultimately show ?thesis using evs evecs by blast
qed

lemma rank_eigenpairs_num_components:
  "num_components (snd (rank_eigenpairs env st M)) = num_components st"
  by (simp add: rank_eigenpairs_def Let_def split: sum.splits)

section \<open>Class statistics and the between-class scatter\<close>

lemma class_members_Suc:
  "class_members ml (Suc n) c = class_members ml n c @ (if ml ! n = c then [n] else [])"
  by (simp add: class_members_def)

lemma add_cv_row:
  "D \<le> cols data \<Longrightarrow>
   add_cv (Mat_of 1 D f) (Mat_row data n) = Mat_of 1 D (\<lambda>i j. f 0 j + cell data n j)"
  unfolding add_cv_def Mat_of_sel by (rule Mat_of_cong) (simp add: Mat_row_def)

lemma calc_sums_upto:
  assumes "D \<le> cols data"
  shows "foldl (calc_sums_step data ml)
           (Mat_zeros 1 D, replicate C (Mat_zeros 1 D), replicate C 0) [0..<n] =
         (Mat_of 1 D (\<lambda>i j. \<Sum>k\<leftarrow>[0..<n]. cell data k j),
          map (\<lambda>c. Mat_of 1 D (\<lambda>i j. \<Sum>k\<leftarrow>class_members ml n c. cell data k j)) [0..<C],
          map (\<lambda>c. length (class_members ml n c)) [0..<C])"
proof (induction n)
  case 0
  show ?case
    by (simp add: Mat_zeros_def class_members_def map_replicate_const)
next
  case (Suc n)
  let ?F = "\<lambda>n c. Mat_of 1 D (\<lambda>i j. \<Sum>k\<leftarrow>class_members ml n c. cell data k j)"
  let ?G = "\<lambda>n c. length (class_members ml n c)"
  have t: "add_cv (Mat_of 1 D (\<lambda>i j. \<Sum>k\<leftarrow>[0..<n]. cell data k j)) (Mat_row data n)
             = Mat_of 1 D (\<lambda>i j. \<Sum>k\<leftarrow>[0..<Suc n]. cell data k j)"
    using add_cv_row [OF assms, of "\<lambda>i j. \<Sum>k\<leftarrow>[0..<n]. cell data k j" n] by simp
  have m: "(map (?F n) [0..<C])[ml ! n := add_cv (map (?F n) [0..<C] ! (ml ! n)) (Mat_row data n)]
             = map (?F (Suc n)) [0..<C]"
  proof (rule nth_equalityI)
    show "length ((map (?F n) [0..<C])[ml ! n := add_cv (map (?F n) [0..<C] ! (ml ! n)) (Mat_row data n)])
            = length (map (?F (Suc n)) [0..<C])" by simp
  next
    fix c
    assume "c < length ((map (?F n) [0..<C])[ml ! n := add_cv (map (?F n) [0..<C] ! (ml ! n)) (Mat_row data n)])"
    then have c: "c < C" by simp
    show "(map (?F n) [0..<C])[ml ! n := add_cv (map (?F n) [0..<C] ! (ml ! n)) (Mat_row data n)] ! c
            = map (?F (Suc n)) [0..<C] ! c"
    proof (cases "ml ! n = c")
      case True
      then show ?thesis
        using c add_cv_row [OF assms, of "\<lambda>i j. \<Sum>k\<leftarrow>class_members ml n c. cell data k j" n]
        by (simp add: class_members_Suc)
    next
      case False
      then show ?thesis using c
        by (simp add: class_members_Suc)
    qed
  qed
  have g: "(map (?G n) [0..<C])[ml ! n := map (?G n) [0..<C] ! (ml ! n) + 1]
             = map (?G (Suc n)) [0..<C]"
  proof (rule nth_equalityI)
    show "length ((map (?G n) [0..<C])[ml ! n := map (?G n) [0..<C] ! (ml ! n) + 1])
            = length (map (?G (Suc n)) [0..<C])" by simp
  next
    fix c
    assume "c < length ((map (?G n) [0..<C])[ml ! n := map (?G n) [0..<C] ! (ml ! n) + 1])"
    then have c: "c < C" by simp
    show "(map (?G n) [0..<C])[ml ! n := map (?G n) [0..<C] ! (ml ! n) + 1] ! c
            = map (?G (Suc n)) [0..<C] ! c"
      using c by (cases "ml ! n = c") (simp_all add: class_members_Suc)
  qed
  let ?init = "(Mat_zeros 1 D, replicate C (Mat_zeros 1 D), replicate C (0::nat))"
  have "foldl (calc_sums_step data ml) ?init [0..<Suc n]
          = calc_sums_step data ml (foldl (calc_sums_step data ml) ?init [0..<n]) n"
    by simp
  also have "\<dots> = calc_sums_step data ml
                      (Mat_of 1 D (\<lambda>i j. \<Sum>k\<leftarrow>[0..<n]. cell data k j),
                       map (?F n) [0..<C], map (?G n) [0..<C]) n"
    by (simp only: Suc.IH)
  also have "\<dots> = (Mat_of 1 D (\<lambda>i j. \<Sum>k\<leftarrow>[0..<Suc n]. cell data k j),
                    map (?F (Suc n)) [0..<C], map (?G (Suc n)) [0..<C])"
    using t m g by (simp add: calc_sums_step_def Let_def)
  finally show ?case .
qed

lemma calc_means_eq:
  "calc_means data ml (rows data) (cols data) C =
     (Mat_of 1 (cols data) (\<lambda>i j. total_mean data j),
      map (\<lambda>c. Mat_of 1 (cols data) (\<lambda>i j. class_mean data ml c j)) [0..<C])"
proof -
  have s: "calc_sums data ml (rows data) (cols data) C =
         (Mat_of 1 (cols data) (\<lambda>i j. \<Sum>k\<leftarrow>[0..<rows data]. cell data k j),
          map (\<lambda>c. Mat_of 1 (cols data)
                      (\<lambda>i j. \<Sum>k\<leftarrow>class_members ml (rows data) c. cell data k j)) [0..<C],
          map (\<lambda>c. length (class_members ml (rows data) c)) [0..<C])"
    unfolding calc_sums_def by (rule calc_sums_upto) simp
  have t: "convertTo_scaled (Mat_of 1 (cols data) (\<lambda>i j. \<Sum>k\<leftarrow>[0..<rows data]. cell data k j))
             (1 / real (rows data)) = Mat_of 1 (cols data) (\<lambda>i j. total_mean data j)"
    unfolding convertTo_scaled_def Mat_of_sel
    by (rule Mat_of_cong) (simp add: total_mean_def)
  have c: "convertTo_scaled
             (Mat_of 1 (cols data) (\<lambda>i j. \<Sum>k\<leftarrow>class_members ml (rows data) c. cell data k j))
             (1 / real (length (class_members ml (rows data) c)))
           = Mat_of 1 (cols data) (\<lambda>i j. class_mean data ml c j)" for c
    unfolding convertTo_scaled_def Mat_of_sel
    by (rule Mat_of_cong) (simp add: class_mean_def)
  show ?thesis
    unfolding calc_means_def s using t c by simp
qed

lemma outer_product_row:
  assumes "rows m = 1" and "cols m = D" and "a < D" and "b < D"
  shows "cell (mulTransposed_cv (subtract_cv m mt)) a b
           = (cell m 0 a - cell mt 0 a) * (cell m 0 b - cell mt 0 b)"
  using assms by (simp add: mulTransposed_cv_def subtract_cv_def)

lemma between_scatter_cells:
  assumes "\<forall>c < C. rows (mc ! c) = 1 \<and> cols (mc ! c) = D"
  shows "between_scatter mc mt D C =
           Mat_of D D (\<lambda>a b. \<Sum>c\<leftarrow>[0..<C].
                          (cell (mc ! c) 0 a - cell mt 0 a) * (cell (mc ! c) 0 b - cell mt 0 b))"
  using assms
proof (induction C)
  case 0
  show ?case by (simp add: between_scatter_def Mat_zeros_def)
next
  case (Suc C)
  let ?S = "\<lambda>C. Mat_of D D (\<lambda>a b. \<Sum>c\<leftarrow>[0..<C].
                          (cell (mc ! c) 0 a - cell mt 0 a) * (cell (mc ! c) 0 b - cell mt 0 b))"
  have IH: "between_scatter mc mt D C = ?S C" using Suc by simp
  have shape: "rows (mc ! C) = 1" "cols (mc ! C) = D" using Suc.prems by simp_all
  have "between_scatter mc mt D (Suc C)
          = add_cv (between_scatter mc mt D C) (mulTransposed_cv (subtract_cv (mc ! C) mt))"
    by (simp add: between_scatter_def Let_def)
  also have "\<dots> = add_cv (?S C) (mulTransposed_cv (subtract_cv (mc ! C) mt))"
    by (simp only: IH)
  also have "\<dots> = ?S (Suc C)"
    unfolding add_cv_def Mat_of_sel
    by (rule Mat_of_cong) (simp add: outer_product_row [OF shape])
  finally show ?case .
qed

lemma between_scatter_eq:
  "between_scatter (snd (calc_means data mapped_labels (rows data) (cols data) C))
     (fst (calc_means data mapped_labels (rows data) (cols data) C)) (cols data) C
   = Sb_unweighted data mapped_labels C"
proof -
  let ?mc = "map (\<lambda>c. Mat_of 1 (cols data) (\<lambda>i j. class_mean data mapped_labels c j)) [0..<C]"
  let ?mt = "Mat_of 1 (cols data) (\<lambda>i j. total_mean data j) :: real Mat"
  have "between_scatter ?mc ?mt (cols data) C =
          Mat_of (cols data) (cols data) (\<lambda>a b. \<Sum>c\<leftarrow>[0..<C].
             (cell (?mc ! c) 0 a - cell ?mt 0 a) * (cell (?mc ! c) 0 b - cell ?mt 0 b))"
    by (rule between_scatter_cells) simp
  also have "\<dots> = Sb_unweighted data mapped_labels C"
    unfolding Sb_unweighted_def
  proof (rule Mat_of_cong)
    fix a b assume ab: "a < cols data" "b < cols data"
    show "(\<Sum>c\<leftarrow>[0..<C]. (cell (?mc ! c) 0 a - cell ?mt 0 a) * (cell (?mc ! c) 0 b - cell ?mt 0 b))
          = (\<Sum>c\<leftarrow>[0..<C]. (class_mean data mapped_labels c a - total_mean data a)
                           * (class_mean data mapped_labels c b - total_mean data b))"
      by (rule arg_cong [where f = sum_list], rule map_cong [OF refl]) (use ab in simp)
  qed
  finally show ?thesis by (simp add: calc_means_eq)
qed

section \<open>The steps of \<^verbatim>\<open>LDA::compute\<close>\<close>

lemma cols_foldl_set_row:
  "cols (foldl (\<lambda>d i. set_row d i (g d i)) data is) = cols data"
  by (induction "is" arbitrary: data) simp_all

lemma cols_subtract_class_means [simp]:
  "cols (subtract_class_means data mapped_labels meanClass N) = cols data"
  unfolding subtract_class_means_def Let_def by (rule cols_foldl_set_row)

lemma shape_foldl_add_cv:
  "rows (foldl (\<lambda>S i. add_cv S (g i)) S0 is) = rows S0 \<and>
   cols (foldl (\<lambda>S i. add_cv S (g i)) S0 is) = cols S0"
  by (induction "is" arbitrary: S0) simp_all

lemma between_scatter_sel [simp]:
  "rows (between_scatter meanClass meanTotal D C) = D"
  "cols (between_scatter meanClass meanTotal D C) = D"
  unfolding between_scatter_def Let_def
  using shape_foldl_add_cv [of "\<lambda>i. mulTransposed_cv (subtract_cv (meanClass ! i) meanTotal)"
      "Mat_zeros D D" "[0..<C]"]
  by (simp_all add: Mat_zeros_def)

lemma compute_eq:
  assumes "channels src = 1"
      and "length labels = rows (if dataAsRow st then src else transpose_cv src)"
  shows "compute env st src labels =
           rank_eigenpairs env
             (if num_components st \<le> 0 \<or> num_components st > int (length (remove_dups labels)) - 1
              then st\<lparr>num_components := int (length (remove_dups labels)) - 1\<rparr> else st)
             (matrix_product
                (Mat_inv env
                   (mulTransposed_cv
                      (subtract_class_means
                         (convertTo_cv (if dataAsRow st then src else transpose_cv src))
                         (map_labels labels)
                         (snd (calc_means
                                 (convertTo_cv (if dataAsRow st then src else transpose_cv src))
                                 (map_labels labels)
                                 (rows (convertTo_cv (if dataAsRow st then src else transpose_cv src)))
                                 (cols (convertTo_cv (if dataAsRow st then src else transpose_cv src)))
                                 (length (remove_dups labels))))
                         (rows (convertTo_cv (if dataAsRow st then src else transpose_cv src))))))
                (between_scatter
                   (snd (calc_means
                           (convertTo_cv (if dataAsRow st then src else transpose_cv src))
                           (map_labels labels)
                           (rows (convertTo_cv (if dataAsRow st then src else transpose_cv src)))
                           (cols (convertTo_cv (if dataAsRow st then src else transpose_cv src)))
                           (length (remove_dups labels))))
                   (fst (calc_means
                           (convertTo_cv (if dataAsRow st then src else transpose_cv src))
                           (map_labels labels)
                           (rows (convertTo_cv (if dataAsRow st then src else transpose_cv src)))
                           (cols (convertTo_cv (if dataAsRow st then src else transpose_cv src)))
                           (length (remove_dups labels))))
                   (cols (convertTo_cv (if dataAsRow st then src else transpose_cv src)))
                   (length (remove_dups labels))))"
proof -
  let ?data = "convertTo_cv (if dataAsRow st then src else transpose_cv src)"
  let ?ml = "map_labels labels"
  let ?C = "length (remove_dups labels)"
  let ?means = "calc_means ?data ?ml (rows ?data) (cols ?data) ?C"
  let ?Sw = "mulTransposed_cv (subtract_class_means ?data ?ml (snd ?means) (rows ?data))"
  let ?Sb = "between_scatter (snd ?means) (fst ?means) (cols ?data) ?C"
  let ?Swi = "Mat_inv env ?Sw"
  have "cols ?Swi = rows ?Sb" by (simp add: Mat_inv_def mulTransposed_cv_def)
  then have g: "gemm_cv ?Swi ?Sb 1 Mat_empty 0 False = Inr (matrix_product ?Swi ?Sb)"
    by (rule gemm_plain)
  show ?thesis
    using assms g by (simp add: compute_def Let_def)
qed

lemma compute_reduce:
  assumes "channels src = 1"
      and "length labels = rows (if dataAsRow st then src else transpose_cv src)"
  shows "\<exists>M. rows M = cols (if dataAsRow st then src else transpose_cv src) \<and>
           compute env st src labels =
             rank_eigenpairs env
               (if num_components st \<le> 0 \<or> num_components st > int (card (set labels)) - 1
                then st\<lparr>num_components := int (card (set labels)) - 1\<rparr> else st) M"
proof -
  let ?data = "convertTo_cv (if dataAsRow st then src else transpose_cv src)"
  let ?ml = "map_labels labels"
  let ?C = "length (remove_dups labels)"
  let ?means = "calc_means ?data ?ml (rows ?data) (cols ?data) ?C"
  let ?Sw = "mulTransposed_cv (subtract_class_means ?data ?ml (snd ?means) (rows ?data))"
  let ?Sb = "between_scatter (snd ?means) (fst ?means) (cols ?data) ?C"
  let ?Swi = "Mat_inv env ?Sw"
  have "cols ?Swi = rows ?Sb" by (simp add: Mat_inv_def mulTransposed_cv_def)
  then have g: "gemm_cv ?Swi ?Sb 1 Mat_empty 0 False = Inr (matrix_product ?Swi ?Sb)"
    by (rule gemm_plain)
  have r: "rows (matrix_product ?Swi ?Sb) = cols (if dataAsRow st then src else transpose_cv src)"
    by (simp add: matrix_product_def Mat_inv_def mulTransposed_cv_def)
  have "compute env st src labels =
          rank_eigenpairs env
            (if num_components st \<le> 0 \<or> num_components st > int (card (set labels)) - 1
             then st\<lparr>num_components := int (card (set labels)) - 1\<rparr> else st)
            (matrix_product ?Swi ?Sb)"
    using assms g by (simp add: compute_def Let_def length_remove_dups)
  with r show ?thesis by blast
qed

lemma compute_num_components:
  "channels src = 1 \<Longrightarrow>
   length labels = rows (if dataAsRow st then src else transpose_cv src) \<Longrightarrow>
   num_components (snd (compute env st src labels)) =
     (if num_components st \<le> 0 \<or> num_components st > int (card (set labels)) - 1
      then int (card (set labels)) - 1 else num_components st)"
  by (simp add: compute_def Let_def length_remove_dups rank_eigenpairs_num_components
           split: sum.splits)

lemma compute_keeps_component_count:
  assumes "0 < num_components st" and "num_components st \<le> int (card (set labels)) - 1"
  shows "num_components (snd (compute env st src labels)) = num_components st"
proof (cases "channels src = 1 \<and>
              length labels = rows (if dataAsRow st then src else transpose_cv src)")
  case True
  then show ?thesis using assms by (simp add: compute_num_components)
next
  case False
  then show ?thesis by (auto simp: compute_def Let_def)
qed

section \<open>The linear subspace transform: reconstruction\<close>

text \<open>
  Claim C1. The claim: \<^verbatim>\<open>reconstruct(W, mean, coefficients)\<close> returns
  \<open>coefficients \<cdot> W\<^sup>T\<close>, with the mean added to every row exactly when the mean has as
  many elements as the output has columns, which is the row count \<open>D\<close> of \<open>W\<close>.

  The source compares the element count of the mean with \<^verbatim>\<open>src.cols\<close>, the number of
  coefficients \<open>k\<close>, not with \<open>D\<close>. With \<open>D = 2\<close> and \<open>k = 1\<close>, a mean of two elements
  is not added, and a mean of one element is repeated to an \<open>n \<times> 1\<close> matrix that
  \<^verbatim>\<open>gemm\<close> refuses as addend of the \<open>n \<times> 2\<close> product.
\<close>

theorem reconstruct_mean_not_added:
  "reconstruct \<lparr>rows = 2, cols = 1, channels = 1, elems = [[1], [1]]\<rparr>
     \<lparr>rows = 1, cols = 2, channels = 1, elems = [[5, 7]]\<rparr>
     \<lparr>rows = 1, cols = 1, channels = 1, elems = [[1]]\<rparr>
   = Inr \<lparr>rows = 1, cols = 2, channels = 1, elems = [[1, 1]]\<rparr> \<and>
   reconstruct \<lparr>rows = 2, cols = 1, channels = 1, elems = [[1], [1]]\<rparr>
     \<lparr>rows = 1, cols = 1, channels = 1, elems = [[5]]\<rparr>
     \<lparr>rows = 1, cols = 1, channels = 1, elems = [[1]]\<rparr>
   = Inl StsAssert"
  by code_simp

section \<open>The component count\<close>

text \<open>
  Claim C2, as stated, at two concrete inputs, both single-channel with as many labels
  as samples and three distinct labels. First, four samples with one feature: the count
  is clamped to \<open>C - 1 = 2\<close>, the solver returns one eigenpair, and the truncation
  \<^verbatim>\<open>Range(0, _num_components)\<close> fails its assertion, so \<^verbatim>\<open>compute\<close> does not succeed.
  Second, an instance constructed with the request 0 that has already learned from
  two classes: the field holds 1, and on six samples with two features \<^verbatim>\<open>compute\<close>
  succeeds with one column, where \<open>C - 1 = 2\<close>.
\<close>

theorem compute_component_count_refuted:
  "channels samples_1d = 1 \<and>
   length [0, 0, 1, 2 :: int] = rows samples_1d \<and>
   card (set [0, 0, 1, 2 :: int]) = 3 \<and>
   fst (compute numerics_diag (LDA_new 0 True) samples_1d [0, 0, 1, 2]) = Some StsAssert \<and>
   channels samples_2d = 1 \<and>
   length [4, 4, 9, 9, 6, 6 :: int] = rows samples_2d \<and>
   card (set [4, 4, 9, 9, 6, 6 :: int]) = 3 \<and>
   fst (compute numerics_diag
          (snd (compute numerics_diag (LDA_new 0 True) samples_1d [7, 7, 3, 3]))
          samples_2d [4, 4, 9, 9, 6, 6]) = None \<and>
   cols (eigenvectors
           (snd (compute numerics_diag
                   (snd (compute numerics_diag (LDA_new 0 True) samples_1d [7, 7, 3, 3]))
                   samples_2d [4, 4, 9, 9, 6, 6]))) = 1"
  by code_simp

text \<open>
  Claim C2, amended. Take an instance whose field \<^verbatim>\<open>_num_components\<close> holds the
  requested count, as the constructors leave it (an earlier \<^verbatim>\<open>compute\<close> overwrites the
  field with its clamped count). For every single-channel sample matrix and label vector
  with \<open>N\<close> labels and \<open>C \<ge> 2\<close> distinct labels, let \<open>k\<close> be \<open>C - 1\<close> when the
  requested count is at most 0 and the minimum of the requested count and \<open>C - 1\<close>
  otherwise. If \<open>k\<close> is at most the number of features \<open>D\<close>, \<^verbatim>\<open>compute\<close> raises no
  error and \<^verbatim>\<open>eigenvectors()\<close> has exactly \<open>k\<close> columns (and \<open>D\<close> rows); in
  particular a requested count above \<open>C - 1\<close> is clamped to \<open>C - 1\<close> without an error.
\<close>

theorem compute_component_count:
  assumes "channels src = 1"
      and "length labels = rows (if dataAsRow st then src else transpose_cv src)"
      and "2 \<le> card (set labels)"
      and "num_components st = requestedComponents"
      and "k = (if requestedComponents \<le> 0 then int (card (set labels)) - 1
                else min requestedComponents (int (card (set labels)) - 1))"
      and "k \<le> int (cols (if dataAsRow st then src else transpose_cv src))"
  shows "fst (compute env st src labels) = None \<and>
         cols (eigenvectors (snd (compute env st src labels))) = nat k \<and>
         rows (eigenvectors (snd (compute env st src labels))) =
           cols (if dataAsRow st then src else transpose_cv src) \<and>
         cols (eigenvalues (snd (compute env st src labels))) = nat k \<and>
         num_components (snd (compute env st src labels)) = k"
proof -
  let ?st = "if num_components st \<le> 0 \<or> num_components st > int (card (set labels)) - 1
             then st\<lparr>num_components := int (card (set labels)) - 1\<rparr> else st"
  from compute_reduce [OF assms(1,2)] obtain M where
    M: "rows M = cols (if dataAsRow st then src else transpose_cv src)" and
    c: "compute env st src labels = rank_eigenpairs env ?st M"
    by blast
  have k: "num_components ?st = k" using assms(4,5) by auto
  have k1: "0 < k" using assms(3,5) by auto
  from rank_eigenpairs_cases [of M env ?st] obtain ev evec where
    s: "rows ev = 1" "rows evec = rows M" and
    r: "rank_eigenpairs env ?st M =
       (None, ?st\<lparr>eigenvalues := first_columns ev (nat k),
                  eigenvectors := first_columns evec (nat k)\<rparr>)"
    unfolding k using k1 assms(6) M by auto
  have D: "0 < rows M" using k1 assms(6) M by simp
  have "cols (first_columns ev (nat k)) = nat k" "cols (first_columns evec (nat k)) = nat k"
    "rows (first_columns evec (nat k)) = rows M"
    using s k1 D by (simp_all add: first_columns_def)
  with c r M k show ?thesis by simp
qed

theorem compute_component_count_witness:
  "channels samples_2d = 1 \<and>
   length [4, 4, 9, 9, 6, 6 :: int] = rows samples_2d \<and>
   2 \<le> card (set [4, 4, 9, 9, 6, 6 :: int]) \<and>
   num_components (LDA_new 5 True) = 5 \<and>
   fst (compute numerics_diag (LDA_new 5 True) samples_2d [4, 4, 9, 9, 6, 6]) = None \<and>
   cols (eigenvectors (snd (compute numerics_diag (LDA_new 5 True) samples_2d [4, 4, 9, 9, 6, 6]))) = 2"
proof -
  have h1: "channels samples_2d = 1" by code_simp
  have h2: "length [4, 4, 9, 9, 6, 6 :: int] =
              rows (if dataAsRow (LDA_new 5 True) then samples_2d else transpose_cv samples_2d)"
    by code_simp
  have h3: "2 \<le> card (set [4, 4, 9, 9, 6, 6 :: int])" by code_simp
  have h4: "num_components (LDA_new 5 True) = 5" by code_simp
  have h5: "(2::int) = (if (5::int) \<le> 0
                        then int (card (set [4, 4, 9, 9, 6, 6 :: int])) - 1
                        else min 5 (int (card (set [4, 4, 9, 9, 6, 6 :: int])) - 1))"
    by code_simp
  have h6: "(2::int) \<le> int (cols (if dataAsRow (LDA_new 5 True) then samples_2d
                                     else transpose_cv samples_2d))"
    by code_simp
  have r: "rows samples_2d = 6" by code_simp
  from compute_component_count [OF h1 h2 h3 h4 h5 h6, of numerics_diag] h1 h3 h4 r
  show ?thesis by simp
qed

text \<open>
  Claim C3. A call of \<^verbatim>\<open>compute\<close> that passes the argument checks stores the clamped
  count in the field \<^verbatim>\<open>_num_components\<close>. A later call on other data keeps the stored
  count whenever it is positive and at most the new \<open>C - 1\<close>, instead of taking
  \<open>C - 1\<close> of the new data, also for an instance constructed with count 0.
\<close>

theorem compute_stores_component_count:
  assumes "channels src = 1"
      and "length labels = rows (if dataAsRow st then src else transpose_cv src)"
      and "st' = snd (compute env st src labels)"
      and "st'' = snd (compute env st' src_b labels_b)"
  shows "num_components st' =
           (if num_components st \<le> 0 \<or> num_components st > int (card (set labels)) - 1
            then int (card (set labels)) - 1 else num_components st) \<and>
         (0 < num_components st' \<and> num_components st' \<le> int (card (set labels_b)) - 1
            \<longrightarrow> num_components st'' = num_components st')"
  unfolding assms(3,4)
  using compute_num_components [OF assms(1,2)] compute_keeps_component_count
  by simp

text \<open>
  An instance constructed with count 0 learns from two classes and stores 1; on data
  with three classes, where \<open>C - 1 = 2\<close>, the count stays 1.
\<close>

theorem compute_stores_component_count_witness:
  "channels samples_1d = 1 \<and>
   length [7, 7, 3, 3 :: int] = rows samples_1d \<and>
   num_components (LDA_new 0 True) = 0 \<and>
   num_components (snd (compute numerics_diag (LDA_new 0 True) samples_1d [7, 7, 3, 3])) = 1 \<and>
   int (card (set [4, 4, 9, 9, 6, 6 :: int])) - 1 = 2 \<and>
   num_components
     (snd (compute numerics_diag
             (snd (compute numerics_diag (LDA_new 0 True) samples_1d [7, 7, 3, 3]))
             samples_2d [4, 4, 9, 9, 6, 6])) = 1"
proof -
  have h1: "channels samples_1d = 1" by code_simp
  have h2: "length [7, 7, 3, 3 :: int] =
              rows (if dataAsRow (LDA_new 0 True) then samples_1d else transpose_cv samples_1d)"
    by code_simp
  have l: "length [7, 7, 3, 3 :: int] = rows samples_1d" by code_simp
  have n0: "num_components (LDA_new 0 True) = 0" by code_simp
  have c1: "int (card (set [7, 7, 3, 3 :: int])) - 1 = 1" by code_simp
  have c2: "int (card (set [4, 4, 9, 9, 6, 6 :: int])) - 1 = 2" by code_simp
  from compute_stores_component_count [where env = numerics_diag and src_b = samples_2d
      and labels_b = "[4, 4, 9, 9, 6, 6]", OF h1 h2 refl refl]
  show ?thesis using h1 l n0 c1 c2 by simp
qed

section \<open>Projection and reconstruction through the engine\<close>

text \<open>
  Claim C4. \<^verbatim>\<open>LDA::project\<close> and \<^verbatim>\<open>LDA::reconstruct\<close> call the generic transform with
  the empty mean, after the transpose when the instance holds its samples by column.
  No offset is subtracted or added: with \<open>X\<close> the oriented samples and \<open>W\<close> the
  eigenvectors, the projection is \<open>X \<cdot> W\<close> whenever the product is defined, and the
  reconstruction of the oriented coefficients \<open>Y\<close> is \<open>Y \<cdot> W\<^sup>T\<close>; a matrix whose
  column count does not fit raises an error, and returns no other value.
\<close>

theorem LDA_transform_uncentered:
  assumes "X = (if dataAsRow st then samples else transpose_cv samples)"
      and "Y = (if dataAsRow st then coefficients else transpose_cv coefficients)"
      and "W = eigenvectors st"
  shows "LDA_project st samples = project W Mat_empty X \<and>
         LDA_project st samples =
           (if cols X = 0 then Inl StsOutOfRange
            else if cols X = rows W then Inr (matrix_product X W) else Inl StsAssert) \<and>
         LDA_reconstruct st coefficients = reconstruct W Mat_empty Y \<and>
         LDA_reconstruct st coefficients =
           (if cols Y = 0 then Inl StsOutOfRange
            else if cols Y = cols W then Inr (matrix_product Y (transpose_cv W))
            else Inl StsAssert)"
  unfolding assms
  by (simp add: LDA_project_def LDA_reconstruct_def project_empty_mean_cases
        reconstruct_empty_mean_cases)

theorem LDA_transform_uncentered_witness:
  "LDA_project
     \<lparr>dataAsRow = True, num_components = 1,
      eigenvectors = \<lparr>rows = 2, cols = 1, channels = 1, elems = [[1], [2]]\<rparr>,
      eigenvalues = \<lparr>rows = 1, cols = 1, channels = 1, elems = [[3]]\<rparr>\<rparr>
     \<lparr>rows = 1, cols = 2, channels = 1, elems = [[10, 20]]\<rparr>
   = Inr \<lparr>rows = 1, cols = 1, channels = 1, elems = [[50]]\<rparr> \<and>
   LDA_reconstruct
     \<lparr>dataAsRow = True, num_components = 1,
      eigenvectors = \<lparr>rows = 2, cols = 1, channels = 1, elems = [[1], [2]]\<rparr>,
      eigenvalues = \<lparr>rows = 1, cols = 1, channels = 1, elems = [[3]]\<rparr>\<rparr>
     \<lparr>rows = 1, cols = 1, channels = 1, elems = [[50]]\<rparr>
   = Inr \<lparr>rows = 1, cols = 2, channels = 1, elems = [[50, 100]]\<rparr>"
proof -
  let ?st = "\<lparr>dataAsRow = True, num_components = 1,
      eigenvectors = \<lparr>rows = 2, cols = 1, channels = 1, elems = [[1], [2]]\<rparr>,
      eigenvalues = \<lparr>rows = 1, cols = 1, channels = 1, elems = [[3]]\<rparr>\<rparr>"
  let ?X = "\<lparr>rows = 1, cols = 2, channels = 1, elems = [[10, 20]]\<rparr> :: real Mat"
  let ?Y = "\<lparr>rows = 1, cols = 1, channels = 1, elems = [[50]]\<rparr> :: real Mat"
  have p: "matrix_product ?X (eigenvectors ?st)
             = \<lparr>rows = 1, cols = 1, channels = 1, elems = [[50]]\<rparr>" by code_simp
  have q: "matrix_product ?Y (transpose_cv (eigenvectors ?st))
             = \<lparr>rows = 1, cols = 2, channels = 1, elems = [[50, 100]]\<rparr>" by code_simp
  note t = LDA_transform_uncentered [where st = ?st and samples = ?X and coefficients = ?Y,
      OF refl refl refl]
  from t [THEN conjunct2, THEN conjunct1]
  have "LDA_project ?st ?X = Inr (matrix_product ?X (eigenvectors ?st))" by simp
  moreover from t [THEN conjunct2, THEN conjunct2, THEN conjunct2]
  have "LDA_reconstruct ?st ?Y
      = Inr (matrix_product ?Y (transpose_cv (eigenvectors ?st)))" by simp
  ultimately show ?thesis by (simp only: p q)
qed

section \<open>The between-class scatter\<close>

text \<open>
  Claim C5. For every input that passes the checks of \<^verbatim>\<open>compute\<close>, the matrix \<^verbatim>\<open>Sb\<close>
  built by the loop over the classes is the sum over the \<open>C\<close> classes of the outer
  product of (class mean - overall mean) with itself, with no factor of the class
  size; every class has at least one sample, so its mean is defined; and \<^verbatim>\<open>compute\<close>
  ranks the eigenpairs of \<open>Sw\<^sup>-\<^sup>1 \<cdot> Sb\<close> for this \<open>Sb\<close>.
\<close>

theorem between_scatter_unweighted:
  assumes "channels src = 1"
      and "data = convertTo_cv (if dataAsRow st then src else transpose_cv src)"
      and "length labels = rows data"
      and "mapped_labels = map_labels labels"
      and "C = length (remove_dups labels)"
      and "meanTotal = fst (calc_means data mapped_labels (rows data) (cols data) C)"
      and "meanClass = snd (calc_means data mapped_labels (rows data) (cols data) C)"
  shows "between_scatter meanClass meanTotal (cols data) C = Sb_unweighted data mapped_labels C \<and>
         (\<forall>c < C. class_members mapped_labels (rows data) c \<noteq> []) \<and>
         compute env st src labels =
           rank_eigenpairs env
             (if num_components st \<le> 0 \<or> num_components st > int C - 1
              then st\<lparr>num_components := int C - 1\<rparr> else st)
             (matrix_product
                (Mat_inv env
                   (mulTransposed_cv (subtract_class_means data mapped_labels meanClass (rows data))))
                (Sb_unweighted data mapped_labels C))"
proof -
  have sb: "between_scatter meanClass meanTotal (cols data) C = Sb_unweighted data mapped_labels C"
    unfolding assms(6,7) by (rule between_scatter_eq)
  have ne: "\<forall>c < C. class_members mapped_labels (rows data) c \<noteq> []"
    using class_members_nonempty [of _ labels] assms(3,4,5) by simp
  have len: "length labels = rows (if dataAsRow st then src else transpose_cv src)"
    using assms(2,3) by simp
  show ?thesis
    using sb ne compute_eq [OF assms(1) len, of env]
    unfolding assms(6,7) assms(2,4,5) by simp
qed

theorem between_scatter_unweighted_witness:
  "channels samples_2d = 1 \<and>
   length [4, 4, 9, 9, 6, 6 :: int] = rows samples_2d \<and>
   between_scatter
     (snd (calc_means samples_2d (map_labels [4, 4, 9, 9, 6, 6]) (rows samples_2d) (cols samples_2d) 3))
     (fst (calc_means samples_2d (map_labels [4, 4, 9, 9, 6, 6]) (rows samples_2d) (cols samples_2d) 3))
     (cols samples_2d) 3
   = \<lparr>rows = 2, cols = 2, channels = 1, elems = [[2, 0], [0, 6]]\<rparr> \<and>
   Sb_unweighted samples_2d (map_labels [4, 4, 9, 9, 6, 6]) 3
   = \<lparr>rows = 2, cols = 2, channels = 1, elems = [[2, 0], [0, 6]]\<rparr>"
proof -
  have h1: "channels samples_2d = 1" by code_simp
  have h2: "samples_2d = convertTo_cv (if dataAsRow (LDA_new 0 True) then samples_2d
                                        else transpose_cv samples_2d)" by code_simp
  have h3: "length [4, 4, 9, 9, 6, 6 :: int] = rows samples_2d" by code_simp
  have h5: "3 = length (remove_dups [4, 4, 9, 9, 6, 6 :: int])" by code_simp
  have v: "between_scatter
     (snd (calc_means samples_2d (map_labels [4, 4, 9, 9, 6, 6]) (rows samples_2d) (cols samples_2d) 3))
     (fst (calc_means samples_2d (map_labels [4, 4, 9, 9, 6, 6]) (rows samples_2d) (cols samples_2d) 3))
     (cols samples_2d) 3
   = \<lparr>rows = 2, cols = 2, channels = 1, elems = [[2, 0], [0, 6]]\<rparr>" by code_simp
  from between_scatter_unweighted [OF h1 h2 h3 refl h5 refl refl, of numerics_diag]
  have "between_scatter
     (snd (calc_means samples_2d (map_labels [4, 4, 9, 9, 6, 6]) (rows samples_2d) (cols samples_2d) 3))
     (fst (calc_means samples_2d (map_labels [4, 4, 9, 9, 6, 6]) (rows samples_2d) (cols samples_2d) 3))
     (cols samples_2d) 3
   = Sb_unweighted samples_2d (map_labels [4, 4, 9, 9, 6, 6]) 3" by blast
  with h1 h3 v show ?thesis by simp
qed

section \<open>The order of the eigenvalues\<close>

text \<open>
  Claim C6. After every call of \<^verbatim>\<open>compute\<close> that raises no error, the entries of
  \<^verbatim>\<open>eigenvalues()\<close> are in non-increasing order. The matrix is one row with as many
  columns as components are kept; with no component kept (one class) the truncation
  leaves the \<open>0 \<times> 0\<close> matrix. \<^verbatim>\<open>LDA::project\<close>, \<^verbatim>\<open>LDA::reconstruct\<close> and the accessors
  assign no field, which is why they are functions of the instance that return a matrix
  only: the row is the same at every later read until the next \<^verbatim>\<open>compute\<close>.
\<close>

theorem compute_eigenvalues_sorted:
  assumes "fst (compute env st src labels) = None"
  shows "sorted_wrt (\<lambda>a b. b \<le> a) (Mat_to_vector (eigenvalues (snd (compute env st src labels)))) \<and>
         rows (eigenvalues (snd (compute env st src labels))) =
           (if num_components (snd (compute env st src labels)) = 0 then 0 else 1) \<and>
         cols (eigenvalues (snd (compute env st src labels))) =
           nat (num_components (snd (compute env st src labels))) \<and>
         length (Mat_to_vector (eigenvalues (snd (compute env st src labels)))) =
           cols (eigenvalues (snd (compute env st src labels)))"
proof -
  have v: "channels src = 1" "length labels = rows (if dataAsRow st then src else transpose_cv src)"
    using assms by (auto simp: compute_def Let_def split: if_splits)
  let ?st = "if num_components st \<le> 0 \<or> num_components st > int (card (set labels)) - 1
             then st\<lparr>num_components := int (card (set labels)) - 1\<rparr> else st"
  let ?n = "num_components ?st"
  from compute_reduce [OF v] obtain M where
    c: "compute env st src labels = rank_eigenpairs env ?st M"
    by blast
  from rank_eigenpairs_cases [of M env ?st] obtain ev evec where
    ev: "rows ev = 1" "elems ev = [ranked_values env M]" and
    r: "rank_eigenpairs env ?st M =
       (if 0 \<le> ?n \<and> ?n \<le> int (rows M)
        then (None, ?st\<lparr>eigenvalues := first_columns ev (nat ?n),
                        eigenvectors := first_columns evec (nat ?n)\<rparr>)
        else (Some StsAssert, ?st\<lparr>eigenvalues := ev, eigenvectors := evec\<rparr>))"
    by blast
  have ok: "0 \<le> ?n \<and> ?n \<le> int (rows M)"
    using assms c r by (auto split: if_splits)
  have st': "snd (compute env st src labels) =
               ?st\<lparr>eigenvalues := first_columns ev (nat ?n),
                    eigenvectors := first_columns evec (nat ?n)\<rparr>"
    using c r ok by simp
  have srt: "sorted_wrt (\<lambda>a b. b \<le> a) (take (nat ?n) (ranked_values env M))"
    using ranked_values_props(2) [of env M] by (rule sorted_wrt_take)
  have len: "length (take (nat ?n) (ranked_values env M)) = nat ?n"
  proof -
    have "nat ?n \<le> length (ranked_values env M)"
      using ok by (simp only: ranked_values_props(1)) linarith
    then show ?thesis by (simp only: length_take min_absorb2)
  qed
  show ?thesis
  proof (cases "?n = 0")
    case True
    then show ?thesis unfolding st' using ev by (simp add: first_columns_def Mat_to_vector_def)
  next
    case False
    with ok have "nat ?n \<noteq> 0" by simp
    then show ?thesis unfolding st' using ev srt len False
      by (simp add: first_columns_def Mat_to_vector_def)
  qed
qed

theorem compute_eigenvalues_sorted_witness:
  "fst (compute numerics_diag (LDA_new 0 True) samples_2d [4, 4, 9, 9, 6, 6]) = None \<and>
   Mat_to_vector (eigenvalues (snd (compute numerics_diag (LDA_new 0 True) samples_2d
                                      [4, 4, 9, 9, 6, 6]))) = [3 / 2, 1] \<and>
   sorted_wrt (\<lambda>a b. b \<le> a)
     (Mat_to_vector (eigenvalues (snd (compute numerics_diag (LDA_new 0 True) samples_2d
                                         [4, 4, 9, 9, 6, 6]))))"
proof -
  have h: "fst (compute numerics_diag (LDA_new 0 True) samples_2d [4, 4, 9, 9, 6, 6]) = None"
    by code_simp
  have v: "Mat_to_vector (eigenvalues (snd (compute numerics_diag (LDA_new 0 True) samples_2d
                                      [4, 4, 9, 9, 6, 6]))) = [3 / 2, 1]"
    by code_simp
  from compute_eigenvalues_sorted [OF h] h v show ?thesis by blast
qed

section \<open>Rejected arguments\<close>

text \<open>
  Claim C7. When the number of labels differs from the number of rows of the oriented
  sample matrix, \<^verbatim>\<open>compute\<close> raises \<^verbatim>\<open>CV_StsBadArg\<close> and leaves the instance as it was.
\<close>

theorem compute_label_count_mismatch:
  assumes "length labels \<noteq> rows (if dataAsRow st then src else transpose_cv src)"
  shows "compute env st src labels = (Some StsBadArg, st)"
  using assms by (simp add: compute_def Let_def)

theorem compute_label_count_mismatch_witness:
  "length [4, 9 :: int] \<noteq> rows samples_2d \<and>
   compute numerics_diag (LDA_new 0 True) samples_2d [4, 9] = (Some StsBadArg, LDA_new 0 True)"
proof -
  have h: "length [4, 9 :: int] \<noteq>
             rows (if dataAsRow (LDA_new 0 True) then samples_2d else transpose_cv samples_2d)"
    by code_simp
  have l: "length [4, 9 :: int] \<noteq> rows samples_2d" by code_simp
  from compute_label_count_mismatch [OF h, of numerics_diag] l show ?thesis by blast
qed

section \<open>The helpers\<close>

text \<open>
  Claim C8. \<^verbatim>\<open>argsort\<close> of \<open>[1, 0, 3, -1]\<close>, held as one row or as one column, is
  \<open>[3, 1, 0, 2]\<close> ascending and \<open>[2, 0, 1, 3]\<close> descending; a matrix that has neither
  one row nor one column is refused with \<^verbatim>\<open>CV_StsBadArg\<close>.
\<close>

theorem argsort_example_and_guard:
  "argsort \<lparr>rows = 1, cols = 4, channels = 1, elems = [[1, 0, 3, -1 :: real]]\<rparr> True
     = Inr \<lparr>rows = 1, cols = 4, channels = 1, elems = [[3, 1, 0, 2]]\<rparr> \<and>
   argsort \<lparr>rows = 1, cols = 4, channels = 1, elems = [[1, 0, 3, -1 :: real]]\<rparr> False
     = Inr \<lparr>rows = 1, cols = 4, channels = 1, elems = [[2, 0, 1, 3]]\<rparr> \<and>
   argsort \<lparr>rows = 4, cols = 1, channels = 1, elems = [[1], [0], [3], [-1 :: real]]\<rparr> True
     = Inr \<lparr>rows = 1, cols = 4, channels = 1, elems = [[3, 1, 0, 2]]\<rparr> \<and>
   argsort \<lparr>rows = 4, cols = 1, channels = 1, elems = [[1], [0], [3], [-1 :: real]]\<rparr> False
     = Inr \<lparr>rows = 1, cols = 4, channels = 1, elems = [[2, 0, 1, 3]]\<rparr> \<and>
   (rows src \<noteq> 1 \<and> cols src \<noteq> 1 \<longrightarrow> argsort src ascending = Inl StsBadArg)"
proof -
  have "argsort \<lparr>rows = 1, cols = 4, channels = 1, elems = [[1, 0, 3, -1 :: real]]\<rparr> True
     = Inr \<lparr>rows = 1, cols = 4, channels = 1, elems = [[3, 1, 0, 2]]\<rparr>" by code_simp
  moreover have "argsort \<lparr>rows = 1, cols = 4, channels = 1, elems = [[1, 0, 3, -1 :: real]]\<rparr> False
     = Inr \<lparr>rows = 1, cols = 4, channels = 1, elems = [[2, 0, 1, 3]]\<rparr>" by code_simp
  moreover have "argsort \<lparr>rows = 4, cols = 1, channels = 1, elems = [[1], [0], [3], [-1 :: real]]\<rparr> True
     = Inr \<lparr>rows = 1, cols = 4, channels = 1, elems = [[3, 1, 0, 2]]\<rparr>" by code_simp
  moreover have "argsort \<lparr>rows = 4, cols = 1, channels = 1, elems = [[1], [0], [3], [-1 :: real]]\<rparr> False
     = Inr \<lparr>rows = 1, cols = 4, channels = 1, elems = [[2, 0, 1, 3]]\<rparr>" by code_simp
  moreover have "rows src \<noteq> 1 \<and> cols src \<noteq> 1 \<longrightarrow> argsort src ascending = Inl StsBadArg"
    by (simp add: argsort_def)
  ultimately show ?thesis by blast
qed

theorem argsort_example_and_guard_witness:
  "rows samples_2d \<noteq> 1 \<and> cols samples_2d \<noteq> 1 \<and> argsort samples_2d False = Inl StsBadArg"
proof -
  have h: "rows samples_2d \<noteq> 1 \<and> cols samples_2d \<noteq> 1" by code_simp
  from argsort_example_and_guard [of samples_2d False] h show ?thesis by blast
qed

text \<open>
  Claim C9. \<^verbatim>\<open>remove_dups\<close> returns the distinct values of its argument in ascending
  order; on \<open>[2, 1, 2, 3, 1]\<close> it returns \<open>[1, 2, 3]\<close>.
\<close>

theorem remove_dups_sorted_distinct:
  "sorted (remove_dups src) \<and> distinct (remove_dups src) \<and> set (remove_dups src) = set src \<and>
   remove_dups [2, 1, 2, 3, 1 :: int] = [1, 2, 3]"
proof -
  have "remove_dups [2, 1, 2, 3, 1 :: int] = [1, 2, 3]" by code_simp
  with remove_dups_props [of src] show ?thesis by blast
qed

text \<open>
  Claim C10, as stated, at two concrete inputs: an index that is no column of the
  source, and an index list longer than the source has columns. \<^verbatim>\<open>src.col\<close> and
  \<^verbatim>\<open>dst.col\<close> fail their assertion and no matrix is returned.
\<close>

theorem sortMatrixByColumn_bad_index:
  "sortMatrixByColumn (uninit numerics_diag)
     \<lparr>rows = 1, cols = 1, channels = 1, elems = [[1]]\<rparr> [5] = Inl StsAssert \<and>
   sortMatrixByColumn (uninit numerics_diag)
     \<lparr>rows = 1, cols = 1, channels = 1, elems = [[1]]\<rparr> [0, 0] = Inl StsAssert"
  by code_simp

text \<open>
  Claim C10, amended. For every source matrix and every index list whose entries are
  column indices of the source and whose length is at most its column count,
  \<^verbatim>\<open>sortMatrixByColumn\<close> returns a matrix with the rows and columns of the source;
  column \<open>i\<close> of the result is column \<open>indices[i]\<close> of the source for every
  \<open>i\<close> below the length of the list, and the columns from that length on hold what
  the allocated memory held.
\<close>

theorem sortMatrixByColumn_columns:
  assumes "\<forall>x \<in> set indices. 0 \<le> x \<and> x < int (cols src)"
      and "length indices \<le> cols src"
  shows "\<exists>dst. sortMatrixByColumn junk src indices = Inr dst \<and>
           rows dst = rows src \<and> cols dst = cols src \<and>
           (\<forall>i < length indices. \<forall>r < rows src. cell dst r i = cell src r (nat (indices ! i))) \<and>
           (\<forall>j. length indices \<le> j \<and> j < cols src \<longrightarrow>
                (\<forall>r < rows src. cell dst r j = junk r j))"
proof -
  from sortMatrixByColumn_result [OF assms, of junk] obtain dst where
    d: "sortMatrixByColumn junk src indices = Inr dst" "rows dst = rows src" "cols dst = cols src"
    and c: "\<forall>r < rows src. \<forall>j < cols src.
              cell dst r j =
                (if j < length indices then cell src r (nat (indices ! j)) else junk r j)"
    by blast
  have "\<forall>i < length indices. \<forall>r < rows src. cell dst r i = cell src r (nat (indices ! i))"
    using c assms(2) by simp
  moreover have "\<forall>j. length indices \<le> j \<and> j < cols src \<longrightarrow>
                   (\<forall>r < rows src. cell dst r j = junk r j)"
    using c by simp
  ultimately show ?thesis using d by blast
qed

theorem sortMatrixByColumn_columns_witness:
  "0 \<le> (1 :: int) \<and> (1 :: int) < int (cols samples_2d) \<and>
   length [1 :: int] \<le> cols samples_2d \<and>
   (\<exists>dst. sortMatrixByColumn (uninit numerics_diag) samples_2d [1] = Inr dst \<and>
           rows dst = rows samples_2d \<and> cols dst = cols samples_2d \<and>
           cell dst 4 0 = cell samples_2d 4 1 \<and>
           cell dst 4 1 = uninit numerics_diag 4 1)"
proof -
  have c: "cols samples_2d = 2" and r: "rows samples_2d = 6" by code_simp+
  have h1: "\<forall>x \<in> set [1 :: int]. 0 \<le> x \<and> x < int (cols samples_2d)" by (simp add: c)
  have h2: "length [1 :: int] \<le> cols samples_2d" by (simp add: c)
  from sortMatrixByColumn_columns [OF h1 h2, of "uninit numerics_diag"] obtain dst where
    d: "sortMatrixByColumn (uninit numerics_diag) samples_2d [1] = Inr dst"
       "rows dst = rows samples_2d" "cols dst = cols samples_2d" and
    copied: "\<forall>i < length [1 :: int]. \<forall>r < rows samples_2d.
               cell dst r i = cell samples_2d r (nat ([1] ! i))" and
    rest: "\<forall>j. length [1 :: int] \<le> j \<and> j < cols samples_2d \<longrightarrow>
               (\<forall>r < rows samples_2d. cell dst r j = uninit numerics_diag r j)"
    by blast
  from copied have "cell dst 4 0 = cell samples_2d 4 1" by (simp add: r)
  moreover from rest have "cell dst 4 1 = uninit numerics_diag 4 1" by (simp add: r c)
  ultimately show ?thesis using d h1 h2 by auto
qed

end
